theory Spec2Isabelle
  imports Complex_Main
begin

section \<open>Data model\<close>

text \<open>
  The curve generator (\<^verbatim>\<open>build_ovp_curve.py\<close>) computes with Python floats. The model
  takes coordinates as real numbers: every arithmetic step is the exact one, and the
  non-finite floats (NaN, infinities) have no counterpart. The dataclass \<^verbatim>\<open>Pt\<close> has the
  fields \<^verbatim>\<open>x\<close> and \<^verbatim>\<open>y\<close>; the selectors are called \<open>pt_x\<close> and \<open>pt_y\<close> so that
  \<open>x\<close> and \<open>y\<close> stay usable as variables.
\<close>

datatype Pt = Pt (pt_x: real) (pt_y: real)

text \<open>The ways the code stops early: a \<^verbatim>\<open>ValueError\<close> with its message, and \<^verbatim>\<open>sys.exit\<close> with its status.\<close>

datatype error = ValueError string | SystemExit int

type_synonym bezier = "Pt \<times> Pt \<times> Pt \<times> Pt"

section \<open>Spline helpers\<close>

text \<open>
  The body of the loop of \<^verbatim>\<open>catmull_rom_to_bezier\<close>: the window
  \<^verbatim>\<open>ext[i-1], ext[i], ext[i+1], ext[i+2]\<close> and the two control points computed from it.
\<close>

definition bezier_window :: "Pt list \<Rightarrow> nat \<Rightarrow> bezier" where
  "bezier_window ext i =
     (let P0 = ext ! (i - 1); P1 = ext ! i; P2 = ext ! (i + 1); P3 = ext ! (i + 2);
          C1 = Pt (pt_x P1 + (pt_x P2 - pt_x P0) / 6) (pt_y P1 + (pt_y P2 - pt_y P0) / 6);
          C2 = Pt (pt_x P2 - (pt_x P3 - pt_x P1) / 6) (pt_y P2 - (pt_y P3 - pt_y P1) / 6)
      in (P1, C1, C2, P2))"

text \<open>
  \<^verbatim>\<open>catmull_rom_to_bezier\<close>: fewer than two points raise; otherwise \<^verbatim>\<open>ext\<close> is the list
  of points with one mirrored point in front (\<^verbatim>\<open>ext[0]\<close>) and one behind (\<^verbatim>\<open>ext[-1]\<close>),
  and the loop \<^verbatim>\<open>for i in range(1, n)\<close> appends one segment per window.
  \<^verbatim>\<open>points[-1]\<close> and \<^verbatim>\<open>points[-2]\<close> are \<open>points ! (n - 1)\<close> and \<open>points ! (n - 2)\<close>;
  every index read is in range because \<open>2 \<le> n\<close> there.
\<close>

definition catmull_rom_to_bezier :: "Pt list \<Rightarrow> error + bezier list" where
  "catmull_rom_to_bezier points =
     (let n = length points in
      if n < 2 then Inl (ValueError ''Need at least two points'')
      else
        let ext =
              Pt (pt_x (points ! 0) - (pt_x (points ! 1) - pt_x (points ! 0)))
                 (pt_y (points ! 0) - (pt_y (points ! 1) - pt_y (points ! 0)))
              # points
              @ [Pt (pt_x (points ! (n - 1)) + (pt_x (points ! (n - 1)) - pt_x (points ! (n - 2))))
                    (pt_y (points ! (n - 1)) + (pt_y (points ! (n - 1)) - pt_y (points ! (n - 2))))]
        in Inr (map (bezier_window ext) [1..<n]))"

text \<open>
  \<^verbatim>\<open>np.linspace(0.0, 1.0, num)\<close>: a negative count raises, and otherwise the result
  holds \<open>num\<close> values, the \<open>i\<close>-th being \<open>i / (num - 1)\<close>; the single value for
  \<open>num = 1\<close> is the start \<open>0\<close>.
\<close>

definition linspace01 :: "int \<Rightarrow> error + real list" where
  "linspace01 num =
     (if num < 0 then Inl (ValueError ''Number of samples must be non-negative'')
      else Inr (map (\<lambda>i. if num = 1 then 0 else real i / real_of_int (num - 1)) [0..<nat num]))"

text \<open>The cubic Bernstein basis, as \<^verbatim>\<open>sample_bezier\<close> writes it.\<close>

definition b0 :: "real \<Rightarrow> real" where
  "b0 t = (1 - t) ^ 3"

definition b1 :: "real \<Rightarrow> real" where
  "b1 t = 3 * (1 - t) ^ 2 * t"

definition b2 :: "real \<Rightarrow> real" where
  "b2 t = 3 * (1 - t) * t ^ 2"

definition b3 :: "real \<Rightarrow> real" where
  "b3 t = t ^ 3"

definition sample_bezier :: "Pt \<Rightarrow> Pt \<Rightarrow> Pt \<Rightarrow> Pt \<Rightarrow> int \<Rightarrow> error + (real list \<times> real list)" where
  "sample_bezier P1 C1 C2 P2 n_pts =
     (case linspace01 n_pts of
        Inl e \<Rightarrow> Inl e
      | Inr t \<Rightarrow>
          Inr (map (\<lambda>t. b0 t * pt_x P1 + b1 t * pt_x C1 + b2 t * pt_x C2 + b3 t * pt_x P2) t,
               map (\<lambda>t. b0 t * pt_y P1 + b1 t * pt_y C1 + b2 t * pt_y C2 + b3 t * pt_y P2) t))"

section \<open>The curve pipeline of \<^verbatim>\<open>main\<close>\<close>

text \<open>
  The sampling loop of \<^verbatim>\<open>main\<close> (\<^verbatim>\<open>for idx, (P1, C1, C2, P2) in enumerate(beziers)\<close>):
  \<open>idx\<close> counts the segments, the pair of lists is \<^verbatim>\<open>xs_all, ys_all\<close>, and the slice
  \<^verbatim>\<open>xs[1:]\<close> is \<open>drop 1\<close>.
\<close>

fun sample_loop :: "int \<Rightarrow> nat \<Rightarrow> bezier list \<Rightarrow> real list \<times> real list \<Rightarrow> error + (real list \<times> real list)" where
  "sample_loop n_per_seg idx [] acc = Inr acc"
| "sample_loop n_per_seg idx ((P1, C1, C2, P2) # rest) (xs_all, ys_all) =
     (case sample_bezier P1 C1 C2 P2 n_per_seg of
        Inl e \<Rightarrow> Inl e
      | Inr (xs, ys) \<Rightarrow>
          (if idx > 0
           then sample_loop n_per_seg (idx + 1) rest (xs_all @ drop 1 xs, ys_all @ drop 1 ys)
           else sample_loop n_per_seg (idx + 1) rest (xs_all @ xs, ys_all @ ys)))"

text \<open>
  The band edges. The labels hold an en dash (U+2013), here its three UTF-8 bytes.
\<close>

definition en_dash :: string where
  "en_dash = [CHR 0xE2, CHR 0x80, CHR 0x93]"

type_synonym band = "real \<times> real \<times> string"

definition bands :: "band list" where
  "bands = [(2, 3, ''2'' @ en_dash @ ''3''),
            (3, 4, ''3'' @ en_dash @ ''4''),
            (4, 5, ''4'' @ en_dash @ ''5''),
            (5, 6, ''5'' @ en_dash @ ''6''),
            (6, 7, ''6'' @ en_dash @ ''7'')]"

text \<open>
  One band column: the mask \<^verbatim>\<open>(x >= lo) & (x <= (hi if i == len(bands)-1 else hi - 1e-12))\<close>
  and \<^verbatim>\<open>np.where(mask, y, nan)\<close>, the blank (NaN) cell being \<open>None\<close>. \<open>nb\<close> is
  \<^verbatim>\<open>len(bands)\<close>.
\<close>

definition band_column :: "nat \<Rightarrow> nat \<Rightarrow> band \<Rightarrow> real list \<Rightarrow> real list \<Rightarrow> real option list" where
  "band_column nb i b xs ys =
     (case b of (lo, hi, label) \<Rightarrow>
        map (\<lambda>(x, y). if lo \<le> x \<and> x \<le> (if i = nb - 1 then hi else hi - 1 / 10 ^ 12)
                       then Some y else None)
            (zip xs ys))"

text \<open>
  The loop \<^verbatim>\<open>for i, (lo, hi, label) in enumerate(bands)\<close>, over any list of bands: one
  named column per band, in the order of the bands. (The labels of \<open>bands\<close> are
  distinct, so each assignment \<^verbatim>\<open>df[label] = ...\<close> adds a column.)
\<close>

definition band_columns :: "band list \<Rightarrow> real list \<Rightarrow> real list \<Rightarrow> (string \<times> real option list) list" where
  "band_columns bs xs ys =
     map (\<lambda>(i, b). (snd (snd b), band_column (length bs) i b xs ys)) (enumerate 0 bs)"

text \<open>
  \<^verbatim>\<open>Series.idxmin()\<close> of pandas on a column indexed \<open>0, 1, ...\<close>: the position of the
  first occurrence of the minimum; an empty column raises. The scan keeps the least
  value seen so far and its position, and replaces them only by a strictly smaller
  value.
\<close>

fun argmin_scan :: "real list \<Rightarrow> nat \<Rightarrow> real \<Rightarrow> nat \<Rightarrow> nat" where
  "argmin_scan [] i best bi = bi"
| "argmin_scan (d # ds) i best bi =
     (if d < best then argmin_scan ds (i + 1) d i else argmin_scan ds (i + 1) best bi)"

definition idxmin :: "real list \<Rightarrow> error + nat" where
  "idxmin ds =
     (case ds of
        [] \<Rightarrow> Inl (ValueError ''attempt to get argmin of an empty sequence'')
      | d # rest \<Rightarrow> Inr (argmin_scan rest 1 d 0))"

text \<open>
  What the code takes from Python itself is a parameter of the model:
  \<^item> \<open>split_line s\<close> is \<^verbatim>\<open>s.strip().split()\<close>, the whitespace-separated words of a line;
  \<^item> \<open>float_of s\<close> is \<^verbatim>\<open>float(s)\<close>, and \<open>None\<close> when it raises;
  \<^item> \<open>int_of s\<close> is \<^verbatim>\<open>int(s.strip())\<close>, and \<open>None\<close> when it raises;
  \<^item> \<open>format_0f v\<close> is the text of \<^verbatim>\<open>f"{v:.0f}"\<close>;
  \<^item> \<open>format_int k\<close> is the decimal text of the integer \<open>k\<close>.
\<close>

record pyenv =
  split_line :: "string \<Rightarrow> string list"
  float_of :: "string \<Rightarrow> real option"
  int_of :: "string \<Rightarrow> int option"
  format_0f :: "real \<Rightarrow> string"
  format_int :: "int \<Rightarrow> string"

text \<open>
  The label loop (\<^verbatim>\<open>for pt in mids\<close>): the nearest dense \<open>x\<close> by absolute distance,
  and the assignment \<^verbatim>\<open>labels[idx] = f"{pt.y*100:.0f}%"\<close>.
\<close>

fun label_loop :: "pyenv \<Rightarrow> real list \<Rightarrow> Pt list \<Rightarrow> string list \<Rightarrow> error + string list" where
  "label_loop env xs [] labels = Inr labels"
| "label_loop env xs (pt # pts) labels =
     (case idxmin (map (\<lambda>x. \<bar>x - pt_x pt\<bar>) xs) of
        Inl e \<Rightarrow> Inl e
      | Inr idx \<Rightarrow> label_loop env xs pts (labels[idx := format_0f env (pt_y pt * 100) @ ''%'']))"

text \<open>
  The worksheet \<^verbatim>\<open>curve_data\<close>, column by column as the data frame holds it: \<open>x\<close>,
  \<open>y\<close>, one column per band, and the labels.
\<close>

record curve_data =
  col_x :: "real list"
  col_y :: "real list"
  col_bands :: "(string \<times> real option list) list"
  col_labels :: "string list"

text \<open>
  The computation of \<^verbatim>\<open>main\<close> from the points and the density read: the stable sort by
  \<open>x\<close> (\<^verbatim>\<open>mids.sort(key=lambda p: p.x)\<close>), the segments, the dense curve, the band
  columns and the labels.
\<close>

definition build_curve :: "pyenv \<Rightarrow> Pt list \<Rightarrow> int \<Rightarrow> error + curve_data" where
  "build_curve env entered n_per_seg =
     (let mids = sort_key pt_x entered in
      case catmull_rom_to_bezier mids of
        Inl e \<Rightarrow> Inl e
      | Inr beziers \<Rightarrow>
          (case sample_loop n_per_seg 0 beziers ([], []) of
             Inl e \<Rightarrow> Inl e
           | Inr (xs_all, ys_all) \<Rightarrow>
               (case label_loop env xs_all mids (replicate (length xs_all) []) of
                  Inl e \<Rightarrow> Inl e
                | Inr labels \<Rightarrow>
                    Inr \<lparr>col_x = xs_all, col_y = ys_all,
                         col_bands = band_columns bands xs_all ys_all,
                         col_labels = labels\<rparr>)))"

section \<open>The prompts of \<^verbatim>\<open>main\<close>\<close>





section \<open>The histogram aggregator\<close>








section \<open>Notions for the lemmas\<close>

text \<open>
  Names for what the lemmas talk about: the parameter values that
  \<^verbatim>\<open>np.linspace(0.0, 1.0, k)\<close> returns, the Bernstein form of one coordinate, and the
  two sample lists that \<^verbatim>\<open>sample_bezier\<close> returns for a segment.
\<close>

definition grid :: "int \<Rightarrow> real list" where
  "grid k = map (\<lambda>i. if k = 1 then 0 else real i / real_of_int (k - 1)) [0..<nat k]"

definition bez :: "real \<Rightarrow> real \<Rightarrow> real \<Rightarrow> real \<Rightarrow> real \<Rightarrow> real" where
  "bez a b c d t = b0 t * a + b1 t * b + b2 t * c + b3 t * d"

definition seg_xs :: "int \<Rightarrow> bezier \<Rightarrow> real list" where
  "seg_xs k s = (case s of (P1, C1, C2, P2) \<Rightarrow>
     map (bez (pt_x P1) (pt_x C1) (pt_x C2) (pt_x P2)) (grid k))"

definition seg_ys :: "int \<Rightarrow> bezier \<Rightarrow> real list" where
  "seg_ys k s = (case s of (P1, C1, C2, P2) \<Rightarrow>
     map (bez (pt_y P1) (pt_y C1) (pt_y C2) (pt_y P2)) (grid k))"

text \<open>
  The claim's words for the label placer: sample \<open>j\<close> is the nearest to \<open>c\<close> when no
  sample of the dense sequence is closer in \<open>x\<close> and every earlier sample is strictly
  farther.
\<close>

definition is_nearest :: "real list \<Rightarrow> real \<Rightarrow> nat \<Rightarrow> bool" where
  "is_nearest xs c j \<longleftrightarrow>
     j < length xs \<and>
     (\<forall>j' < length xs. \<bar>xs ! j - c\<bar> \<le> \<bar>xs ! j' - c\<bar>) \<and>
     (\<forall>j' < j. \<bar>xs ! j - c\<bar> < \<bar>xs ! j' - c\<bar>)"





section \<open>An environment for the examples\<close>

text \<open>
  The examples below run the model on concrete input and need a concrete environment:
  tables for the few lines and words the examples enter, and a printer of integers in
  decimal, applied to the value rounded half to even as \<^verbatim>\<open>.0f\<close> rounds.
\<close>

definition round_half_even :: "real \<Rightarrow> int" where
  "round_half_even v =
     (let f = \<lfloor>v\<rfloor>; d = v - of_int f
      in if d < 1 / 2 then f else if d > 1 / 2 then f + 1 else if even f then f else f + 1)"

fun digits :: "nat \<Rightarrow> string" where
  "digits n = (if n < 10 then [char_of (48 + n)] else digits (n div 10) @ [char_of (48 + n mod 10)])"

definition show_int :: "int \<Rightarrow> string" where
  "show_int k = (if k < 0 then CHR ''-'' # digits (nat (- k)) else digits (nat k))"

definition example_env :: pyenv where
  "example_env =
     \<lparr>split_line = (\<lambda>s. case map_of
          [(''2.0 0.40'', [''2.0'', ''0.40'']), (''3.5 0.49'', [''3.5'', ''0.49'']),
           (''4.0 0.55'', [''4.0'', ''0.55'']), (''5.5 0.60'', [''5.5'', ''0.60'']),
           (''6.5 0.70'', [''6.5'', ''0.70'']), (''3.0 0.40'', [''3.0'', ''0.40'']),
           (''3.0 0.49'', [''3.0'', ''0.49''])] s of None \<Rightarrow> [s] | Some ws \<Rightarrow> ws),
      float_of = map_of
          [(''2.0'', 2), (''3.5'', 7 / 2), (''4.0'', 4), (''5.5'', 11 / 2), (''6.5'', 13 / 2),
           (''3.0'', 3), (''0.40'', 2 / 5), (''0.49'', 49 / 100), (''0.55'', 11 / 20),
           (''0.60'', 3 / 5), (''0.70'', 7 / 10)],
      int_of = map_of [(''2'', 2), (''3'', 3), (''4'', 4), (''10'', 10)],
      format_0f = (\<lambda>v. show_int (round_half_even v)),
      format_int = show_int\<rparr>"

section \<open>The segment builder\<close>

lemma ext_nth:
  assumes "Suc i < length ps"
  shows "(v0 # ps @ [vn]) ! Suc i = ps ! i"
    and "(v0 # ps @ [vn]) ! Suc (Suc i) = ps ! Suc i"
    and "(v0 # ps @ [vn]) ! i = (if i = 0 then v0 else ps ! (i - 1))"
    and "(v0 # ps @ [vn]) ! Suc (Suc (Suc i)) = (if i + 2 < length ps then ps ! (i + 2) else vn)"
proof -
  from assms have il: "i < length ps" by simp
  show "(v0 # ps @ [vn]) ! Suc i = ps ! i" using il by (simp add: nth_append)
  show "(v0 # ps @ [vn]) ! Suc (Suc i) = ps ! Suc i" using assms by (simp add: nth_append)
  show "(v0 # ps @ [vn]) ! i = (if i = 0 then v0 else ps ! (i - 1))"
    using il by (cases i) (simp_all add: nth_append)
  show "(v0 # ps @ [vn]) ! Suc (Suc (Suc i)) = (if i + 2 < length ps then ps ! (i + 2) else vn)"
  proof (cases "i + 2 < length ps")
    case True then show ?thesis by (simp add: nth_append)
  next
    case False
    with assms have "i + 2 = length ps" by simp
    then show ?thesis by (simp add: nth_append)
  qed
qed

lemma bezier_window_ext:
  assumes "Suc i < length ps"
  shows "bezier_window (v0 # ps @ [vn]) (Suc i) =
      (ps ! i,
       Pt (pt_x (ps ! i) + (pt_x (ps ! Suc i) - pt_x (if i = 0 then v0 else ps ! (i - 1))) / 6)
          (pt_y (ps ! i) + (pt_y (ps ! Suc i) - pt_y (if i = 0 then v0 else ps ! (i - 1))) / 6),
       Pt (pt_x (ps ! Suc i) - (pt_x (if i + 2 < length ps then ps ! (i + 2) else vn) - pt_x (ps ! i)) / 6)
          (pt_y (ps ! Suc i) - (pt_y (if i + 2 < length ps then ps ! (i + 2) else vn) - pt_y (ps ! i)) / 6),
       ps ! Suc i)"
  unfolding bezier_window_def Let_def
  using ext_nth[OF assms, of v0 vn] by simp

lemma catmull_rom_eq:
  assumes "2 \<le> length ps"
  shows "catmull_rom_to_bezier ps =
    Inr (map (bezier_window
      (Pt (pt_x (ps ! 0) - (pt_x (ps ! 1) - pt_x (ps ! 0)))
          (pt_y (ps ! 0) - (pt_y (ps ! 1) - pt_y (ps ! 0)))
       # ps @
       [Pt (pt_x (ps ! (length ps - 1)) + (pt_x (ps ! (length ps - 1)) - pt_x (ps ! (length ps - 2))))
           (pt_y (ps ! (length ps - 1)) + (pt_y (ps ! (length ps - 1)) - pt_y (ps ! (length ps - 2))))]))
      [1..<length ps])"
  using assms by (simp add: catmull_rom_to_bezier_def Let_def)

text \<open>
  Claim C1. For at least two control points the segment builder returns one segment per
  adjacent pair of points, \<open>n - 1\<close> in all. Segment \<open>i\<close> runs from \<open>P i\<close> to
  \<open>P (i + 1)\<close>; its control points are \<open>P i + (P (i + 1) - before) / 6\<close> and
  \<open>P (i + 1) - (after - P i) / 6\<close>, where \<open>before\<close> is the point in front of \<open>P i\<close>
  and \<open>after\<close> the point behind \<open>P (i + 1)\<close> in the sequence extended by the two
  mirrored points \<open>P 0 - (P 1 - P 0)\<close> and \<open>P (n - 1) - (P (n - 2) - P (n - 1))\<close>.
\<close>

theorem segment_builder_segments:
  assumes "2 \<le> length ps"
  shows "\<exists>segs. catmull_rom_to_bezier ps = Inr segs \<and> length segs = length ps - 1 \<and>
    (\<forall>i < length ps - 1.
       let n = length ps;
           first_virtual = Pt (pt_x (ps ! 0) - (pt_x (ps ! 1) - pt_x (ps ! 0)))
                              (pt_y (ps ! 0) - (pt_y (ps ! 1) - pt_y (ps ! 0)));
           last_virtual = Pt (pt_x (ps ! (n - 1)) - (pt_x (ps ! (n - 2)) - pt_x (ps ! (n - 1))))
                             (pt_y (ps ! (n - 1)) - (pt_y (ps ! (n - 2)) - pt_y (ps ! (n - 1))));
           before = (if i = 0 then first_virtual else ps ! (i - 1));
           after = (if i + 2 < n then ps ! (i + 2) else last_virtual)
       in segs ! i =
            (ps ! i,
             Pt (pt_x (ps ! i) + (pt_x (ps ! (i + 1)) - pt_x before) / 6)
                (pt_y (ps ! i) + (pt_y (ps ! (i + 1)) - pt_y before) / 6),
             Pt (pt_x (ps ! (i + 1)) - (pt_x after - pt_x (ps ! i)) / 6)
                (pt_y (ps ! (i + 1)) - (pt_y after - pt_y (ps ! i)) / 6),
             ps ! (i + 1)))"
proof (intro exI conjI allI impI)
  show "catmull_rom_to_bezier ps = Inr (map (bezier_window
      (Pt (pt_x (ps ! 0) - (pt_x (ps ! 1) - pt_x (ps ! 0)))
          (pt_y (ps ! 0) - (pt_y (ps ! 1) - pt_y (ps ! 0)))
       # ps @
       [Pt (pt_x (ps ! (length ps - 1)) + (pt_x (ps ! (length ps - 1)) - pt_x (ps ! (length ps - 2))))
           (pt_y (ps ! (length ps - 1)) + (pt_y (ps ! (length ps - 1)) - pt_y (ps ! (length ps - 2))))]))
      [1..<length ps])"
    by (rule catmull_rom_eq[OF assms])
next
  show "length (map (bezier_window
      (Pt (pt_x (ps ! 0) - (pt_x (ps ! 1) - pt_x (ps ! 0)))
          (pt_y (ps ! 0) - (pt_y (ps ! 1) - pt_y (ps ! 0)))
       # ps @
       [Pt (pt_x (ps ! (length ps - 1)) + (pt_x (ps ! (length ps - 1)) - pt_x (ps ! (length ps - 2))))
           (pt_y (ps ! (length ps - 1)) + (pt_y (ps ! (length ps - 1)) - pt_y (ps ! (length ps - 2))))]))
      [1..<length ps]) = length ps - 1"
    by simp
next
  fix i assume "i < length ps - 1"
  then have si: "Suc i < length ps" by simp
  show "let n = length ps;
           first_virtual = Pt (pt_x (ps ! 0) - (pt_x (ps ! 1) - pt_x (ps ! 0)))
                              (pt_y (ps ! 0) - (pt_y (ps ! 1) - pt_y (ps ! 0)));
           last_virtual = Pt (pt_x (ps ! (n - 1)) - (pt_x (ps ! (n - 2)) - pt_x (ps ! (n - 1))))
                             (pt_y (ps ! (n - 1)) - (pt_y (ps ! (n - 2)) - pt_y (ps ! (n - 1))));
           before = (if i = 0 then first_virtual else ps ! (i - 1));
           after = (if i + 2 < n then ps ! (i + 2) else last_virtual)
       in map (bezier_window
      (Pt (pt_x (ps ! 0) - (pt_x (ps ! 1) - pt_x (ps ! 0)))
          (pt_y (ps ! 0) - (pt_y (ps ! 1) - pt_y (ps ! 0)))
       # ps @
       [Pt (pt_x (ps ! (length ps - 1)) + (pt_x (ps ! (length ps - 1)) - pt_x (ps ! (length ps - 2))))
           (pt_y (ps ! (length ps - 1)) + (pt_y (ps ! (length ps - 1)) - pt_y (ps ! (length ps - 2))))]))
      [1..<length ps] ! i =
            (ps ! i,
             Pt (pt_x (ps ! i) + (pt_x (ps ! (i + 1)) - pt_x before) / 6)
                (pt_y (ps ! i) + (pt_y (ps ! (i + 1)) - pt_y before) / 6),
             Pt (pt_x (ps ! (i + 1)) - (pt_x after - pt_x (ps ! i)) / 6)
                (pt_y (ps ! (i + 1)) - (pt_y after - pt_y (ps ! i)) / 6),
             ps ! (i + 1))"
    unfolding Let_def using si by (simp add: bezier_window_ext[OF si])
qed

text \<open>The segments of three points, computed through the theorem.\<close>

theorem segment_builder_segments_witness:
  "\<exists>segs. catmull_rom_to_bezier [Pt 2 4, Pt 5 10, Pt 11 7] = Inr segs \<and> length segs = 2
     \<and> segs ! 0 = (Pt 2 4, Pt 3 6, Pt (7 / 2) (19 / 2), Pt 5 10)
     \<and> segs ! 1 = (Pt 5 10, Pt (13 / 2) (21 / 2), Pt 9 8, Pt 11 7)"
proof -
  have h: "2 \<le> length [Pt 2 4, Pt 5 10, Pt 11 7]" by simp
  from segment_builder_segments[OF h] obtain segs where
    s: "catmull_rom_to_bezier [Pt 2 4, Pt 5 10, Pt 11 7] = Inr segs" "length segs = 2"
    and a: "\<forall>i<length [Pt 2 4, Pt 5 10, Pt 11 7] - 1.
       let n = length [Pt 2 4, Pt 5 10, Pt 11 7];
           first_virtual = Pt (pt_x ([Pt 2 4, Pt 5 10, Pt 11 7] ! 0) - (pt_x ([Pt 2 4, Pt 5 10, Pt 11 7] ! 1) - pt_x ([Pt 2 4, Pt 5 10, Pt 11 7] ! 0)))
                              (pt_y ([Pt 2 4, Pt 5 10, Pt 11 7] ! 0) - (pt_y ([Pt 2 4, Pt 5 10, Pt 11 7] ! 1) - pt_y ([Pt 2 4, Pt 5 10, Pt 11 7] ! 0)));
           last_virtual = Pt (pt_x ([Pt 2 4, Pt 5 10, Pt 11 7] ! (n - 1)) - (pt_x ([Pt 2 4, Pt 5 10, Pt 11 7] ! (n - 2)) - pt_x ([Pt 2 4, Pt 5 10, Pt 11 7] ! (n - 1))))
                             (pt_y ([Pt 2 4, Pt 5 10, Pt 11 7] ! (n - 1)) - (pt_y ([Pt 2 4, Pt 5 10, Pt 11 7] ! (n - 2)) - pt_y ([Pt 2 4, Pt 5 10, Pt 11 7] ! (n - 1))));
           before = (if i = 0 then first_virtual else [Pt 2 4, Pt 5 10, Pt 11 7] ! (i - 1));
           after = (if i + 2 < n then [Pt 2 4, Pt 5 10, Pt 11 7] ! (i + 2) else last_virtual)
       in segs ! i =
            ([Pt 2 4, Pt 5 10, Pt 11 7] ! i,
             Pt (pt_x ([Pt 2 4, Pt 5 10, Pt 11 7] ! i) + (pt_x ([Pt 2 4, Pt 5 10, Pt 11 7] ! (i + 1)) - pt_x before) / 6)
                (pt_y ([Pt 2 4, Pt 5 10, Pt 11 7] ! i) + (pt_y ([Pt 2 4, Pt 5 10, Pt 11 7] ! (i + 1)) - pt_y before) / 6),
             Pt (pt_x ([Pt 2 4, Pt 5 10, Pt 11 7] ! (i + 1)) - (pt_x after - pt_x ([Pt 2 4, Pt 5 10, Pt 11 7] ! i)) / 6)
                (pt_y ([Pt 2 4, Pt 5 10, Pt 11 7] ! (i + 1)) - (pt_y after - pt_y ([Pt 2 4, Pt 5 10, Pt 11 7] ! i)) / 6),
             [Pt 2 4, Pt 5 10, Pt 11 7] ! (i + 1))"
    by auto
  from a[rule_format, of 0] have "segs ! 0 = (Pt 2 4, Pt 3 6, Pt (7 / 2) (19 / 2), Pt 5 10)"
    by (simp add: Let_def)
  moreover from a[rule_format, of 1] have "segs ! 1 = (Pt 5 10, Pt (13 / 2) (21 / 2), Pt 9 8, Pt 11 7)"
    by (simp add: Let_def)
  ultimately show ?thesis using s by simp
qed

section \<open>The curve sampler\<close>

lemma linspace01_grid: "0 \<le> k \<Longrightarrow> linspace01 k = Inr (grid k)"
  by (simp add: linspace01_def grid_def)

lemma length_grid [simp]: "length (grid k) = nat k"
  by (simp add: grid_def)

lemma grid_nth: "i < nat k \<Longrightarrow> grid k ! i = (if k = 1 then 0 else real i / real_of_int (k - 1))"
  by (simp add: grid_def)

lemma grid_first: "1 \<le> k \<Longrightarrow> grid k ! 0 = 0"
  by (simp add: grid_nth)


lemma bez_0 [simp]: "bez a b c d 0 = a"
  by (simp add: bez_def b0_def b1_def b2_def b3_def)

lemma bez_1 [simp]: "bez a b c d 1 = d"
  by (simp add: bez_def b0_def b1_def b2_def b3_def)

lemma sample_bezier_eq:
  "0 \<le> k \<Longrightarrow> sample_bezier P1 C1 C2 P2 k = Inr (seg_xs k (P1, C1, C2, P2), seg_ys k (P1, C1, C2, P2))"
  by (simp add: sample_bezier_def linspace01_grid seg_xs_def seg_ys_def bez_def)

lemma length_seg_xs [simp]: "length (seg_xs k s) = nat k"
  by (cases s) (simp add: seg_xs_def)

lemma length_seg_ys [simp]: "length (seg_ys k s) = nat k"
  by (cases s) (simp add: seg_ys_def)

lemma sample_loop_later:
  "0 \<le> k \<Longrightarrow> 0 < idx \<Longrightarrow>
   sample_loop k idx segs (ax, ay) =
     Inr (ax @ concat (map (\<lambda>s. drop 1 (seg_xs k s)) segs),
          ay @ concat (map (\<lambda>s. drop 1 (seg_ys k s)) segs))"
proof (induction segs arbitrary: idx ax ay)
  case Nil
  then show ?case by simp
next
  case (Cons s segs)
  obtain P1 C1 C2 P2 where s: "s = (P1, C1, C2, P2)" by (cases s) auto
  show ?case
    using Cons.prems Cons.IH[of "idx + 1"]
    by (simp add: s sample_bezier_eq)
qed

lemma sample_loop_first:
  assumes "0 \<le> k"
  shows "sample_loop k 0 (s # segs) ([], []) =
     Inr (seg_xs k s @ concat (map (\<lambda>s. drop 1 (seg_xs k s)) segs),
          seg_ys k s @ concat (map (\<lambda>s. drop 1 (seg_ys k s)) segs))"
proof -
  obtain P1 C1 C2 P2 where s: "s = (P1, C1, C2, P2)" by (cases s) auto
  show ?thesis
    using assms by (simp add: s sample_bezier_eq sample_loop_later)
qed

text \<open>
  With at least one sample per segment, the first segment gives its first sample and
  then, like every later segment, its samples but the first.
\<close>

lemma sample_loop_dense:
  assumes "1 \<le> k"
  shows "sample_loop k 0 (s # segs) ([], []) =
     Inr (seg_xs k s ! 0 # concat (map (\<lambda>s. drop 1 (seg_xs k s)) (s # segs)),
          seg_ys k s ! 0 # concat (map (\<lambda>s. drop 1 (seg_ys k s)) (s # segs)))"
proof -
  have "length (seg_xs k s) \<noteq> 0" "length (seg_ys k s) \<noteq> 0" using assms by simp_all
  then obtain x xs y ys where xs: "seg_xs k s = x # xs" and ys: "seg_ys k s = y # ys"
    by (cases "seg_xs k s"; cases "seg_ys k s"; simp)
  have "0 \<le> k" using assms by simp
  from sample_loop_first[OF this, of s segs] show ?thesis
    by (simp add: xs ys)
qed


lemma length_concat_blocks:
  "\<forall>x \<in> set xs. length (f x) = L \<Longrightarrow> length (concat (map f xs)) = length xs * L"
  by (induction xs) auto


lemma seg_xs_nth:
  "i < nat k \<Longrightarrow> seg_xs k (P1, C1, C2, P2) ! i = bez (pt_x P1) (pt_x C1) (pt_x C2) (pt_x P2) (grid k ! i)"
  by (simp add: seg_xs_def)

lemma seg_ys_nth:
  "i < nat k \<Longrightarrow> seg_ys k (P1, C1, C2, P2) ! i = bez (pt_y P1) (pt_y C1) (pt_y C2) (pt_y P2) (grid k ! i)"
  by (simp add: seg_ys_def)

lemma seg_first:
  assumes "1 \<le> k"
  shows "seg_xs k (P1, C1, C2, P2) ! 0 = pt_x P1" and "seg_ys k (P1, C1, C2, P2) ! 0 = pt_y P1"
  using assms by (simp_all add: seg_xs_nth seg_ys_nth grid_first)


lemma idxmin_nonempty: "ds \<noteq> [] \<Longrightarrow> \<exists>i. idxmin ds = Inr i"
  by (cases ds) (simp_all add: idxmin_def)

lemma label_loop_ok:
  "xs \<noteq> [] \<Longrightarrow> \<exists>labels. label_loop env xs pts l0 = Inr labels \<and> length labels = length l0"
proof (induction pts arbitrary: l0)
  case Nil
  then show ?case by simp
next
  case (Cons pt pts)
  from Cons.prems have "map (\<lambda>x. \<bar>x - pt_x pt\<bar>) xs \<noteq> []" by simp
  from idxmin_nonempty[OF this] obtain i where i: "idxmin (map (\<lambda>x. \<bar>x - pt_x pt\<bar>) xs) = Inr i" ..
  from Cons.IH[OF Cons.prems, of "l0[i := format_0f env (pt_y pt * 100) @ ''%'']"]
  show ?case by (simp add: i)
qed

lemma catmull_rom_segs:
  assumes "2 \<le> length ps"
  obtains segs where "catmull_rom_to_bezier ps = Inr segs" "length segs = length ps - 1"
    "\<And>j. Suc j < length ps \<Longrightarrow> \<exists>C1 C2. segs ! j = (ps ! j, C1, C2, ps ! Suc j)"
proof -
  let ?ext = "Pt (pt_x (ps ! 0) - (pt_x (ps ! 1) - pt_x (ps ! 0)))
          (pt_y (ps ! 0) - (pt_y (ps ! 1) - pt_y (ps ! 0)))
       # ps @
       [Pt (pt_x (ps ! (length ps - 1)) + (pt_x (ps ! (length ps - 1)) - pt_x (ps ! (length ps - 2))))
           (pt_y (ps ! (length ps - 1)) + (pt_y (ps ! (length ps - 1)) - pt_y (ps ! (length ps - 2))))]"
  let ?segs = "map (bezier_window ?ext) [1..<length ps]"
  have 1: "catmull_rom_to_bezier ps = Inr ?segs" by (rule catmull_rom_eq[OF assms])
  have 2: "length ?segs = length ps - 1" by simp
  have 3: "\<exists>C1 C2. ?segs ! j = (ps ! j, C1, C2, ps ! Suc j)" if "Suc j < length ps" for j
  proof -
    have "?segs ! j = bezier_window ?ext (Suc j)" using that by simp
    then show ?thesis by (simp add: bezier_window_ext[OF that])
  qed
  from that[OF 1 2 3] show thesis .
qed

text \<open>The shape of the dense curve: the first point, then for each segment its samples but the first.\<close>

lemma build_curve_shape:
  assumes "2 \<le> length entered" "1 \<le> k"
  obtains segs labels where
    "catmull_rom_to_bezier (sort_key pt_x entered) = Inr segs"
    "length segs = length entered - 1"
    "\<And>j. Suc j < length entered \<Longrightarrow>
        \<exists>C1 C2. segs ! j = (sort_key pt_x entered ! j, C1, C2, sort_key pt_x entered ! Suc j)"
    "label_loop env (pt_x (sort_key pt_x entered ! 0) # concat (map (\<lambda>s. drop 1 (seg_xs k s)) segs))
        (sort_key pt_x entered)
        (replicate (Suc (length (concat (map (\<lambda>s. drop 1 (seg_xs k s)) segs)))) []) = Inr labels"
    "length labels = Suc (length (concat (map (\<lambda>s. drop 1 (seg_xs k s)) segs)))"
    "build_curve env entered k =
       Inr \<lparr>col_x = pt_x (sort_key pt_x entered ! 0) # concat (map (\<lambda>s. drop 1 (seg_xs k s)) segs),
            col_y = pt_y (sort_key pt_x entered ! 0) # concat (map (\<lambda>s. drop 1 (seg_ys k s)) segs),
            col_bands = band_columns bands
               (pt_x (sort_key pt_x entered ! 0) # concat (map (\<lambda>s. drop 1 (seg_xs k s)) segs))
               (pt_y (sort_key pt_x entered ! 0) # concat (map (\<lambda>s. drop 1 (seg_ys k s)) segs)),
            col_labels = labels\<rparr>"
proof -
  let ?mids = "sort_key pt_x entered"
  have n: "2 \<le> length ?mids" using assms by simp
  from catmull_rom_segs[OF n] obtain segs where
    segs: "catmull_rom_to_bezier ?mids = Inr segs" "length segs = length ?mids - 1"
    and nth: "\<And>j. Suc j < length ?mids \<Longrightarrow> \<exists>C1 C2. segs ! j = (?mids ! j, C1, C2, ?mids ! Suc j)"
    by blast
  from segs(2) n obtain s rest where sr: "segs = s # rest" by (cases segs) auto
  from nth[of 0] n sr obtain C1 C2 where s: "s = (?mids ! 0, C1, C2, ?mids ! Suc 0)" by auto
  let ?xs = "pt_x (?mids ! 0) # concat (map (\<lambda>s. drop 1 (seg_xs k s)) segs)"
  let ?ys = "pt_y (?mids ! 0) # concat (map (\<lambda>s. drop 1 (seg_ys k s)) segs)"
  have loop: "sample_loop k 0 segs ([], []) = Inr (?xs, ?ys)"
    unfolding sr using sample_loop_dense[OF assms(2), of s rest] seg_first[OF assms(2)]
    by (simp add: s)
  have "?xs \<noteq> []" by simp
  from label_loop_ok[OF this, of env ?mids "replicate (length ?xs) []"]
  obtain labels where lab: "label_loop env ?xs ?mids (replicate (length ?xs) []) = Inr labels"
    and len: "length labels = length ?xs" by auto
  have bc: "build_curve env entered k =
       Inr \<lparr>col_x = ?xs, col_y = ?ys, col_bands = band_columns bands ?xs ?ys, col_labels = labels\<rparr>"
    unfolding build_curve_def Let_def segs(1) using loop lab by simp
  show thesis
    by (rule that[OF segs(1) _ _ _ _ bc]) (use segs(2) nth lab len in simp_all)
qed

lemma dense_length:
  "length (x0 # concat (map (\<lambda>s. drop 1 (seg_xs k s)) segs)) = Suc (length segs * (nat k - 1))"
  "length (y0 # concat (map (\<lambda>s. drop 1 (seg_ys k s)) segs)) = Suc (length segs * (nat k - 1))"
  by (simp_all add: length_concat_blocks[where L = "nat k - 1"])




text \<open>
  Claim C2. For \<open>n \<ge> 2\<close> control points and a density \<open>k \<ge> 1\<close> (so for every
  \<open>k \<ge> 4\<close>), the pipeline returns a dense sequence of exactly
  \<open>1 + (n - 1) * (k - 1)\<close> samples; the \<open>y\<close> column and the label column have that
  length too.
\<close>

theorem dense_sequence_length:
  assumes "2 \<le> length entered" "1 \<le> k"
  shows "\<exists>out. build_curve env entered k = Inr out \<and>
     int (length (col_x out)) = 1 + (int (length entered) - 1) * (k - 1) \<and>
     length (col_y out) = length (col_x out) \<and>
     length (col_labels out) = length (col_x out)"
proof (rule build_curve_shape[OF assms, of env])
  fix segs labels
  let ?mids = "sort_key pt_x entered"
  let ?xs = "pt_x (?mids ! 0) # concat (map (\<lambda>s. drop 1 (seg_xs k s)) segs)"
  let ?ys = "pt_y (?mids ! 0) # concat (map (\<lambda>s. drop 1 (seg_ys k s)) segs)"
  let ?out = "\<lparr>col_x = ?xs, col_y = ?ys, col_bands = band_columns bands ?xs ?ys, col_labels = labels\<rparr>"
  assume len: "length segs = length entered - 1"
    and lab: "length labels = Suc (length (concat (map (\<lambda>s. drop 1 (seg_xs k s)) segs)))"
    and bc: "build_curve env entered k = Inr ?out"
  have lx: "length ?xs = Suc ((length entered - 1) * (nat k - 1))"
    unfolding dense_length(1) len ..
  have ly: "length ?ys = Suc ((length entered - 1) * (nat k - 1))"
    unfolding dense_length(2) len ..
  have "int (length entered - 1) = int (length entered) - 1" using assms(1) by simp
  moreover have "int (nat k - 1) = k - 1" using assms(2) by simp
  ultimately have "int (length ?xs) = 1 + (int (length entered) - 1) * (k - 1)"
    unfolding lx by simp
  then show ?thesis using bc lx ly lab by simp
qed

text \<open>Five points at density 10 give 37 rows.\<close>

theorem dense_sequence_length_witness:
  "\<exists>out. build_curve example_env [Pt 2 0.4, Pt 3.5 0.49, Pt 4 0.55, Pt 5.5 0.6, Pt 6.5 0.7] 10 = Inr out \<and>
     length (col_x out) = 37 \<and> length (col_y out) = 37 \<and> length (col_labels out) = 37"
  using dense_sequence_length[of "[Pt 2 0.4, Pt 3.5 0.49, Pt 4 0.55, Pt 5.5 0.6, Pt 6.5 0.7]" 10 example_env]
  by auto

section \<open>Interpolation of the control points\<close>





section \<open>The band annotator\<close>

lemma band_columns_nth:
  assumes "i < length bs"
  shows "band_columns bs xs ys ! i = (snd (snd (bs ! i)), band_column (length bs) i (bs ! i) xs ys)"
  using assms by (simp add: band_columns_def nth_enumerate_eq)

lemma band_column_nth:
  assumes "j < length xs" "length ys = length xs"
  shows "band_column nb i (lo, hi, label) xs ys ! j =
     (if lo \<le> xs ! j \<and> xs ! j \<le> (if i = nb - 1 then hi else hi - 1 / 10 ^ 12)
      then Some (ys ! j) else None)"
  using assms by (simp add: band_column_def)

lemma length_band_column: "length ys = length xs \<Longrightarrow> length (band_column nb i b xs ys) = length xs"
  by (cases b) (simp add: band_column_def)

text \<open>
  Claim C5, as the code has it. For any list of bands and any dense sequence, the cell of
  band \<open>i\<close> at sample \<open>j\<close> holds the sample's \<open>y\<close> exactly when
  \<open>lower \<le> x \<le> upper - 1e-12\<close>, and for the last band when \<open>lower \<le> x \<le> upper\<close>;
  otherwise it is blank. The column carries the band's label and has one cell per
  sample. A sample whose \<open>x\<close> is the boundary shared by band \<open>i\<close> and band \<open>i + 1\<close>
  has a blank cell in band \<open>i\<close> and its \<open>y\<close> in band \<open>i + 1\<close>, provided band
  \<open>i + 1\<close> is at least \<open>1e-12\<close> wide.
\<close>

theorem band_membership:
  assumes "i < length bs" "j < length xs" "length ys = length xs"
  shows "(case bs ! i of (lo, hi, label) \<Rightarrow>
           fst (band_columns bs xs ys ! i) = label \<and>
           length (snd (band_columns bs xs ys ! i)) = length xs \<and>
           snd (band_columns bs xs ys ! i) ! j =
             (if lo \<le> xs ! j \<and> xs ! j \<le> (if i = length bs - 1 then hi else hi - 1 / 10 ^ 12)
              then Some (ys ! j) else None)) \<and>
         (Suc i < length bs \<longrightarrow>
           (case (bs ! i, bs ! Suc i) of ((lo, hi, label), (lo', hi', label')) \<Rightarrow>
              hi = lo' \<and> lo' + 1 / 10 ^ 12 \<le> hi' \<and> xs ! j = hi \<longrightarrow>
                snd (band_columns bs xs ys ! i) ! j = None \<and>
                snd (band_columns bs xs ys ! Suc i) ! j = Some (ys ! j)))"
proof -
  obtain lo hi label where b: "bs ! i = (lo, hi, label)" by (cases "bs ! i") auto
  have col: "band_columns bs xs ys ! i = (label, band_column (length bs) i (lo, hi, label) xs ys)"
    using band_columns_nth[OF assms(1), of xs ys] by (simp add: b)
  have entry: "snd (band_columns bs xs ys ! i) ! j =
             (if lo \<le> xs ! j \<and> xs ! j \<le> (if i = length bs - 1 then hi else hi - 1 / 10 ^ 12)
              then Some (ys ! j) else None)"
    unfolding col using band_column_nth[OF assms(2,3)] by simp
  have first: "case bs ! i of (lo, hi, label) \<Rightarrow>
           fst (band_columns bs xs ys ! i) = label \<and>
           length (snd (band_columns bs xs ys ! i)) = length xs \<and>
           snd (band_columns bs xs ys ! i) ! j =
             (if lo \<le> xs ! j \<and> xs ! j \<le> (if i = length bs - 1 then hi else hi - 1 / 10 ^ 12)
              then Some (ys ! j) else None)"
    using entry by (simp add: b col length_band_column[OF assms(3)])
  have second: "case (bs ! i, bs ! Suc i) of ((lo, hi, label), (lo', hi', label')) \<Rightarrow>
              hi = lo' \<and> lo' + 1 / 10 ^ 12 \<le> hi' \<and> xs ! j = hi \<longrightarrow>
                snd (band_columns bs xs ys ! i) ! j = None \<and>
                snd (band_columns bs xs ys ! Suc i) ! j = Some (ys ! j)"
    if si: "Suc i < length bs"
  proof -
    obtain lo' hi' label' where b': "bs ! Suc i = (lo', hi', label')" by (cases "bs ! Suc i") auto
    have col': "band_columns bs xs ys ! Suc i = (label', band_column (length bs) (Suc i) (lo', hi', label') xs ys)"
      using band_columns_nth[OF si, of xs ys] by (simp add: b')
    have entry': "snd (band_columns bs xs ys ! Suc i) ! j =
             (if lo' \<le> xs ! j \<and> xs ! j \<le> (if Suc i = length bs - 1 then hi' else hi' - 1 / 10 ^ 12)
              then Some (ys ! j) else None)"
      unfolding col' using band_column_nth[OF assms(2,3)] by simp
    have notlast: "i \<noteq> length bs - 1" using si by simp
    show ?thesis
      unfolding b b' entry entry' using notlast by (auto simp: field_simps)
  qed
  show ?thesis using first second by blast
qed

text \<open>The sample at \<open>x = 4\<close> is blank in the band from 3 to 4 and present in the band from 4 to 5.\<close>

theorem band_membership_witness:
  "fst (band_columns bands [3, 4, 7] [0.4, 0.55, 0.7] ! 1) = ''3'' @ en_dash @ ''4'' \<and>
   snd (band_columns bands [3, 4, 7] [0.4, 0.55, 0.7] ! 1) ! 1 = None \<and>
   snd (band_columns bands [3, 4, 7] [0.4, 0.55, 0.7] ! Suc 1) ! 1 = Some 0.55"
proof -
  have h: "1 < length bands" "1 < length [3, 4, 7 :: real]"
    "length [0.4, 0.55, 0.7 :: real] = length [3, 4, 7 :: real]"
    by (simp_all add: bands_def)
  have b: "bands ! 1 = (3, 4, ''3'' @ en_dash @ ''4'')" "bands ! Suc 1 = (4, 5, ''4'' @ en_dash @ ''5'')"
    "Suc 1 < length bands"
    by (simp_all add: bands_def)
  have lb: "length bands = 5" by (simp add: bands_def)
  from band_membership[OF h] show ?thesis
    unfolding b by (simp add: lb)
qed

text \<open>
  The half-open rule \<open>lower \<le> x < upper\<close> does not describe the code: a sample at
  \<open>x = 3 - 5e-13\<close> lies in \<open>[2, 3)\<close>, and its cell is blank in every band.
\<close>

theorem band_membership_counterexample:
  "(2::real) \<le> 3 - 5 / 10 ^ 13 \<and> 3 - 5 / 10 ^ 13 < (3::real) \<and>
   band_columns bands [3 - 5 / 10 ^ 13] [1] =
     [(''2'' @ en_dash @ ''3'', [None]), (''3'' @ en_dash @ ''4'', [None]),
      (''4'' @ en_dash @ ''5'', [None]), (''5'' @ en_dash @ ''6'', [None]),
      (''6'' @ en_dash @ ''7'', [None])]"
  by (simp add: band_columns_def band_column_def bands_def enumerate_eq_zip upt_rec)

section \<open>The label placer\<close>




lemma is_nearest_unique:
  assumes "is_nearest xs c i" "is_nearest xs c j"
  shows "i = j"
proof (rule ccontr)
  assume "i \<noteq> j"
  then consider "i < j" | "j < i" by linarith
  then show False
  proof cases
    case 1
    with assms show False unfolding is_nearest_def
      by (metis not_less)
  next
    case 2
    with assms show False unfolding is_nearest_def
      by (metis not_less)
  qed
qed



lemma length_fold_update [simp]:
  "length (fold (\<lambda>p l. l[f p := g p]) ps l0) = length l0"
  by (induction ps arbitrary: l0) simp_all






section \<open>The prompts and what they accept\<close>







text \<open>The tables of the example environment, for evaluating the prompts.\<close>

lemma example_env_simps [simp]:
  "split_line example_env = (\<lambda>s. case map_of
          [(''2.0 0.40'', [''2.0'', ''0.40'']), (''3.5 0.49'', [''3.5'', ''0.49'']),
           (''4.0 0.55'', [''4.0'', ''0.55'']), (''5.5 0.60'', [''5.5'', ''0.60'']),
           (''6.5 0.70'', [''6.5'', ''0.70'']), (''3.0 0.40'', [''3.0'', ''0.40'']),
           (''3.0 0.49'', [''3.0'', ''0.49''])] s of None \<Rightarrow> [s] | Some ws \<Rightarrow> ws)"
  "float_of example_env = map_of
          [(''2.0'', 2), (''3.5'', 7 / 2), (''4.0'', 4), (''5.5'', 11 / 2), (''6.5'', 13 / 2),
           (''3.0'', 3), (''0.40'', 2 / 5), (''0.49'', 49 / 100), (''0.55'', 11 / 20),
           (''0.60'', 3 / 5), (''0.70'', 7 / 10)]"
  "int_of example_env = map_of [(''2'', 2), (''3'', 3), (''4'', 4), (''10'', 10)]"
  by (simp_all add: example_env_def)






section \<open>The shares of the histogram\<close>







section \<open>Monotonicity in \<open>x\<close>\<close>















end
